theory Spec2Isabelle
  imports Complex_Main
begin

section \<open>Soil-profile proxies: depth-weighted average and site kappa\<close>

text \<open>
  A shallow embedding of \<^verbatim>\<open>openquake/srtk/soilprofile/proxies.py\<close>.

  The module computes on one-dimensional numpy arrays of float64 and on float scalars.
  Every arithmetic operator of the source is an operation on \<open>npfloat\<close> below, and every
  such operation rounds its exact result with a rounding function \<open>rnd\<close> that the
  embedding takes as its first argument. With \<open>round_double\<close> the operations are those
  of IEEE 754 binary64, which is what the code runs on; with \<open>exact_round\<close> nothing is
  rounded, which is the arithmetic a statement "in exact arithmetic" is about. The code
  is embedded once and read with either.
\<close>

subsection \<open>Floating-point values\<close>

text \<open>
  A finite value \<open>Fin a\<close> (with \<open>Fin 0\<close> the positive zero), the negative zero, the two
  infinities and NaN.
\<close>

datatype npfloat = Fin real | NegZero | PInf | NInf | NaN

fun is_nan :: "npfloat \<Rightarrow> bool" where
  "is_nan NaN = True"
| "is_nan _ = False"

fun is_inf :: "npfloat \<Rightarrow> bool" where
  "is_inf PInf = True"
| "is_inf NInf = True"
| "is_inf _ = False"

fun is_zero :: "npfloat \<Rightarrow> bool" where
  "is_zero (Fin a) = (a = 0)"
| "is_zero NegZero = True"
| "is_zero _ = False"

fun sign_bit :: "npfloat \<Rightarrow> bool" where
  "sign_bit (Fin a) = (a < 0)"
| "sign_bit NegZero = True"
| "sign_bit NInf = True"
| "sign_bit _ = False"

text \<open>The real number a finite value stands for; it is not used on an infinity or NaN.\<close>

fun val :: "npfloat \<Rightarrow> real" where
  "val (Fin a) = a"
| "val _ = 0"

definition nonfinite :: "npfloat \<Rightarrow> bool" where
  "nonfinite x = (is_nan x \<or> is_inf x)"

definition signed_zero :: "bool \<Rightarrow> npfloat" where
  "signed_zero neg = (if neg then NegZero else Fin 0)"

definition signed_inf :: "bool \<Rightarrow> npfloat" where
  "signed_inf neg = (if neg then NInf else PInf)"

subsection \<open>Rounding\<close>

type_synonym rounding = "real \<Rightarrow> npfloat"

definition exact_round :: rounding where
  "exact_round r = Fin r"

text \<open>
  Rounding to binary64, to nearest with ties to even. \<open>binade x\<close> is the exponent \<open>e\<close>
  with \<open>2^e \<le> x < 2^(e+1)\<close>, kept within \<open>-1022\<close> (below it the values are subnormal and
  share the spacing \<open>2^-1074\<close>) and \<open>1024\<close> (from where on every value overflows). The
  significand has 53 bits, so the spacing of the values in binade \<open>e\<close> is \<open>2^(e-52)\<close>.
\<close>

function exp_up :: "int \<Rightarrow> real \<Rightarrow> int" where
  "exp_up e x = (if 2 \<le> x \<and> e < 1024 then exp_up (e + 1) (x / 2) else e)"
  by pat_completeness auto
termination
  by (relation "measure (\<lambda>(e, x). nat (1024 - e))") auto

function exp_down :: "int \<Rightarrow> real \<Rightarrow> int" where
  "exp_down e x = (if x < 1 \<and> - 1022 < e then exp_down (e - 1) (x * 2) else e)"
  by pat_completeness auto
termination
  by (relation "measure (\<lambda>(e, x). nat (e + 1022))") auto

declare exp_up.simps [simp del] exp_down.simps [simp del]

definition binade :: "real \<Rightarrow> int" where
  "binade x = (if 1 \<le> x then exp_up 0 x else exp_down 0 x)"

definition pow2 :: "int \<Rightarrow> real" where
  "pow2 e = (if 0 \<le> e then 2 ^ nat e else 1 / 2 ^ nat (- e))"

definition round_half_even :: "real \<Rightarrow> int" where
  "round_half_even x =
     (let f = \<lfloor>x\<rfloor>; d = x - of_int f
      in if d < 1 / 2 then f else if 1 / 2 < d then f + 1 else if even f then f else f + 1)"

text \<open>A rounded value of magnitude \<open>2^1024\<close> or more is an overflow.\<close>

definition overflow_threshold :: real where
  "overflow_threshold = 2 ^ 1024"

definition round_double :: rounding where
  "round_double r =
     (let q = pow2 (binade \<bar>r\<bar> - 52); y = of_int (round_half_even (r / q)) * q
      in if overflow_threshold \<le> \<bar>y\<bar> then signed_inf (r < 0)
         else if y = 0 then signed_zero (r < 0)
         else Fin y)"

subsection \<open>Arithmetic and comparison\<close>

fun np_neg :: "npfloat \<Rightarrow> npfloat" where
  "np_neg (Fin a) = (if a = 0 then NegZero else Fin (- a))"
| "np_neg NegZero = Fin 0"
| "np_neg PInf = NInf"
| "np_neg NInf = PInf"
| "np_neg NaN = NaN"

text \<open>
  \<^verbatim>\<open>x + y\<close>. Opposite infinities give NaN; an exact sum of zero is the positive zero
  unless both operands are the negative zero.
\<close>

definition np_add :: "rounding \<Rightarrow> npfloat \<Rightarrow> npfloat \<Rightarrow> npfloat" where
  "np_add rnd x y =
     (if is_nan x \<or> is_nan y then NaN
      else if is_inf x \<and> is_inf y then (if x = y then x else NaN)
      else if is_inf x then x
      else if is_inf y then y
      else if x = NegZero \<and> y = NegZero then NegZero
      else if val x + val y = 0 then Fin 0
      else rnd (val x + val y))"

text \<open>\<^verbatim>\<open>x - y\<close>.\<close>

definition np_sub :: "rounding \<Rightarrow> npfloat \<Rightarrow> npfloat \<Rightarrow> npfloat" where
  "np_sub rnd x y = np_add rnd x (np_neg y)"

text \<open>\<^verbatim>\<open>x * y\<close>. Infinity times zero is NaN; the sign of a zero or an infinity is the
  product of the signs.\<close>

definition np_mul :: "rounding \<Rightarrow> npfloat \<Rightarrow> npfloat \<Rightarrow> npfloat" where
  "np_mul rnd x y =
     (if is_nan x \<or> is_nan y then NaN
      else if (is_inf x \<and> is_zero y) \<or> (is_zero x \<and> is_inf y) then NaN
      else if is_inf x \<or> is_inf y then signed_inf (sign_bit x \<noteq> sign_bit y)
      else if is_zero x \<or> is_zero y then signed_zero (sign_bit x \<noteq> sign_bit y)
      else rnd (val x * val y))"

text \<open>
  \<^verbatim>\<open>x / y\<close> on numpy scalars. Nothing is raised: zero over zero and infinity over
  infinity are NaN, anything else over zero is an infinity.
\<close>

definition np_div :: "rounding \<Rightarrow> npfloat \<Rightarrow> npfloat \<Rightarrow> npfloat" where
  "np_div rnd x y =
     (if is_nan x \<or> is_nan y then NaN
      else if (is_inf x \<and> is_inf y) \<or> (is_zero x \<and> is_zero y) then NaN
      else if is_inf x \<or> is_zero y then signed_inf (sign_bit x \<noteq> sign_bit y)
      else if is_inf y \<or> is_zero x then signed_zero (sign_bit x \<noteq> sign_bit y)
      else rnd (val x / val y))"

text \<open>\<^verbatim>\<open>x < y\<close> and \<^verbatim>\<open>x == y\<close>: false as soon as one side is NaN; the two zeros are equal.\<close>

definition np_lt :: "npfloat \<Rightarrow> npfloat \<Rightarrow> bool" where
  "np_lt x y =
     (\<not> is_nan x \<and> \<not> is_nan y \<and>
      (if is_inf x \<or> is_inf y then x \<noteq> y \<and> (x = NInf \<or> y = PInf) else val x < val y))"

definition np_eq :: "npfloat \<Rightarrow> npfloat \<Rightarrow> bool" where
  "np_eq x y =
     (\<not> is_nan x \<and> \<not> is_nan y \<and>
      (if is_inf x \<or> is_inf y then x = y else val x = val y))"

text \<open>Truthiness of a float: only the zeros are falsy.\<close>

definition np_truthy :: "npfloat \<Rightarrow> bool" where
  "np_truthy x = (\<not> is_zero x)"

subsection \<open>Arrays\<close>

datatype py_error = IndexError | ValueError

text \<open>
  \<^verbatim>\<open>a * b\<close> on one-dimensional arrays: elementwise when the lengths agree, an array of
  length one is broadcast, any other pair of lengths raises ValueError.
\<close>

definition np_array_mul ::
    "rounding \<Rightarrow> npfloat list \<Rightarrow> npfloat list \<Rightarrow> py_error + npfloat list" where
  "np_array_mul rnd a b =
     (if length a = length b then Inr (map2 (np_mul rnd) a b)
      else if length a = 1 then Inr (map (\<lambda>y. np_mul rnd (hd a) y) b)
      else if length b = 1 then Inr (map (\<lambda>x. np_mul rnd x (hd b)) a)
      else Inl ValueError)"

text \<open>
  \<^verbatim>\<open>_np.sum\<close> of a contiguous float64 array. numpy adds up pairwise: fewer than 8
  elements in order, starting from 0; up to 128 elements on 8 accumulators that take
  every eighth element each, combined as a balanced tree, with the elements past the
  last full block of 8 added in order; a longer array is split in two (the first half
  cut down to a multiple of 8) and the two sums are added. The result is added to the
  identity 0 the reduction starts from.
\<close>

fun acc8 :: "rounding \<Rightarrow> npfloat list \<Rightarrow> npfloat list \<Rightarrow> npfloat list" where
  "acc8 rnd r xs =
     (if length xs < 8 then r
      else acc8 rnd (map2 (np_add rnd) r (take 8 xs)) (drop 8 xs))"

declare acc8.simps [simp del]

definition tree8 :: "rounding \<Rightarrow> npfloat list \<Rightarrow> npfloat" where
  "tree8 rnd r =
     np_add rnd
       (np_add rnd (np_add rnd (r ! 0) (r ! 1)) (np_add rnd (r ! 2) (r ! 3)))
       (np_add rnd (np_add rnd (r ! 4) (r ! 5)) (np_add rnd (r ! 6) (r ! 7)))"

function pairwise_sum :: "rounding \<Rightarrow> npfloat list \<Rightarrow> npfloat" where
  "pairwise_sum rnd xs =
     (if length xs < 8 then foldl (np_add rnd) (Fin 0) xs
      else if length xs \<le> 128 then
        foldl (np_add rnd)
          (tree8 rnd (acc8 rnd (take 8 xs) (drop 8 (take (length xs - length xs mod 8) xs))))
          (drop (length xs - length xs mod 8) xs)
      else
        np_add rnd
          (pairwise_sum rnd (take (length xs div 2 - (length xs div 2) mod 8) xs))
          (pairwise_sum rnd (drop (length xs div 2 - (length xs div 2) mod 8) xs)))"
  by pat_completeness auto
termination
  by (relation "measure (\<lambda>(rnd, xs). length xs)") auto

declare pairwise_sum.simps [simp del]

definition np_sum :: "rounding \<Rightarrow> npfloat list \<Rightarrow> npfloat" where
  "np_sum rnd xs = np_add rnd (Fin 0) (pairwise_sum rnd xs)"

subsection \<open>depth\_weighted\_average\<close>

text \<open>
  The state of the \<^verbatim>\<open>for\<close> loop: the two local variables it updates, and whether it
  was left by \<^verbatim>\<open>break\<close>.
\<close>

record loop_state =
  mean_value :: npfloat
  total_depth :: npfloat
  broke :: bool

text \<open>
  The loop over \<^verbatim>\<open>zip(thickness[:-1], soil_prop[:-1])\<close>. A layer that passes the test
  \<^verbatim>\<open>(tk + total_depth) < depth\<close> adds \<^verbatim>\<open>tk*sp/depth\<close> and advances \<open>total_depth\<close>; the
  first layer that fails it adds \<^verbatim>\<open>(depth - total_depth)*sp/depth\<close> and breaks, before
  \<open>total_depth\<close> is advanced.
\<close>

fun dwa_loop ::
    "rounding \<Rightarrow> (npfloat \<times> npfloat) list \<Rightarrow> npfloat \<Rightarrow> loop_state \<Rightarrow> loop_state" where
  "dwa_loop rnd [] depth s = s"
| "dwa_loop rnd ((tk, sp) # rest) depth s =
     (if np_lt (np_add rnd tk (total_depth s)) depth
      then dwa_loop rnd rest depth
             (s\<lparr>mean_value :=
                  np_add rnd (mean_value s) (np_div rnd (np_mul rnd tk sp) depth),
                total_depth := np_add rnd (total_depth s) tk\<rparr>)
      else s\<lparr>mean_value :=
                 np_add rnd (mean_value s)
                   (np_div rnd (np_mul rnd (np_sub rnd depth (total_depth s)) sp) depth),
              broke := True\<rparr>)"

definition init_state :: loop_state where
  "init_state = \<lparr>mean_value = Fin 0, total_depth = Fin 0, broke = False\<rparr>"

definition after_loop :: "rounding \<Rightarrow> npfloat list \<Rightarrow> npfloat list \<Rightarrow> npfloat \<Rightarrow> loop_state" where
  "after_loop rnd thickness soil_prop depth =
     dwa_loop rnd (zip (butlast thickness) (butlast soil_prop)) depth init_state"

text \<open>The test after the loop: \<^verbatim>\<open>total_depth == _np.sum(thickness[:-1])\<close>.\<close>

definition halfspace_branch :: "rounding \<Rightarrow> npfloat list \<Rightarrow> npfloat list \<Rightarrow> npfloat \<Rightarrow> bool" where
  "halfspace_branch rnd thickness soil_prop depth =
     np_eq (total_depth (after_loop rnd thickness soil_prop depth))
       (np_sum rnd (butlast thickness))"

text \<open>
  \<^verbatim>\<open>soil_prop[-1]\<close> is read only in the half-space branch, and raises IndexError on
  an empty array.
\<close>

definition depth_weighted_average ::
    "rounding \<Rightarrow> npfloat list \<Rightarrow> npfloat list \<Rightarrow> npfloat \<Rightarrow> py_error + npfloat" where
  "depth_weighted_average rnd thickness soil_prop depth =
     (let s = after_loop rnd thickness soil_prop depth in
      if halfspace_branch rnd thickness soil_prop depth
      then (case soil_prop of
              [] \<Rightarrow> Inl IndexError
            | _ # _ \<Rightarrow>
                Inr (np_add rnd (mean_value s)
                       (np_div rnd
                          (np_mul rnd (np_sub rnd depth (total_depth s)) (last soil_prop))
                          depth)))
      else Inr (mean_value s))"

subsection \<open>compute\_site\_kappa\<close>

text \<open>
  The optional argument \<open>depth\<close> is \<open>None\<close> when it is not supplied (the default
  \<^verbatim>\<open>[]\<close>). The guard \<^verbatim>\<open>if not depth\<close> tests truthiness, so a supplied zero is
  replaced as well. \<^verbatim>\<open>depth/(s_velocity*s_quality)\<close> divides the scalar by every
  element of the product.
\<close>

definition compute_site_kappa ::
    "rounding \<Rightarrow> npfloat list \<Rightarrow> npfloat list \<Rightarrow> npfloat list \<Rightarrow> npfloat option
       \<Rightarrow> py_error + npfloat" where
  "compute_site_kappa rnd thickness s_velocity s_quality depth =
     (let depth' = (case depth of
                      None \<Rightarrow> np_sum rnd thickness
                    | Some d \<Rightarrow> if np_truthy d then d else np_sum rnd thickness)
      in case np_array_mul rnd s_velocity s_quality of
           Inl e \<Rightarrow> Inl e
         | Inr vq \<Rightarrow>
             depth_weighted_average rnd thickness (map (np_div rnd depth') vq) depth')"

text \<open>Whether a call returned an infinity or a NaN.\<close>

definition returns_nonfinite :: "py_error + npfloat \<Rightarrow> bool" where
  "returns_nonfinite r = (case r of Inl e \<Rightarrow> False | Inr x \<Rightarrow> nonfinite x)"

section \<open>What the specification says, as definitions\<close>




text \<open>
  The specification's per-layer kappa: \<open>layer_kappa[i] = depth / (s_velocity[i] * s_quality[i])\<close>,
  the same scalar \<open>depth\<close> in every element.
\<close>

definition spec_layer_kappa :: "real \<Rightarrow> real list \<Rightarrow> real list \<Rightarrow> npfloat list" where
  "spec_layer_kappa depth s_velocity s_quality =
     map (\<lambda>i. Fin (depth / (s_velocity ! i * s_quality ! i))) [0..<length s_velocity]"

section \<open>Auxiliary notions for the proofs\<close>

text \<open>A value that is finite and stands for the real number \<open>v\<close>, whatever the sign of a zero.\<close>

definition fin_val :: "npfloat \<Rightarrow> real \<Rightarrow> bool" where
  "fin_val y v = (y = Fin v \<or> (y = NegZero \<and> v = 0))"

text \<open>
  A positive float64: an infinity, or a finite value not below the least positive
  subnormal \<open>2^-1074\<close>.
\<close>

definition least_pos :: real where
  "least_pos = 1 / 2 ^ 1074"

definition pos_double :: "npfloat \<Rightarrow> bool" where
  "pos_double x = (x = PInf \<or> (x = Fin (val x) \<and> least_pos \<le> val x))"

section \<open>A profile of ten thin layers\<close>

text \<open>
  \<open>tenth\<close> is the float64 nearest to 0.1. The profile has ten layers of that thickness
  above the half-space and the property 1 in every layer.
\<close>

definition tenth :: real where
  "tenth = 3602879701896397 / 2 ^ 55"

definition thin_layers :: "npfloat list" where
  "thin_layers =
     [Fin tenth, Fin tenth, Fin tenth, Fin tenth, Fin tenth,
      Fin tenth, Fin tenth, Fin tenth, Fin tenth, Fin tenth, Fin 0]"

definition unit_prop :: "npfloat list" where
  "unit_prop =
     [Fin 1, Fin 1, Fin 1, Fin 1, Fin 1, Fin 1, Fin 1, Fin 1, Fin 1, Fin 1, Fin 1]"

section \<open>Facts about the arithmetic\<close>

lemma np_lt_Fin: "np_lt (Fin a) (Fin b) = (a < b)"
  by (simp add: np_lt_def)

lemma np_eq_Fin: "np_eq (Fin a) (Fin b) = (a = b)"
  by (simp add: np_eq_def)

lemma np_add_commute: "np_add rnd x y = np_add rnd y x"
  by (cases x; cases y) (simp_all add: np_add_def add.commute)

lemma np_lt_not_eq: "np_lt x y \<Longrightarrow> \<not> np_eq x y"
  by (cases x; cases y) (simp_all add: np_lt_def np_eq_def)

lemma np_div_zero_nonfinite: "is_zero d \<Longrightarrow> nonfinite (np_div rnd x d)"
  by (cases x; cases d) (simp_all add: np_div_def nonfinite_def signed_inf_def)

lemma np_add_nonfinite_left: "nonfinite x \<Longrightarrow> nonfinite (np_add rnd x y)"
  by (cases x; cases y) (simp_all add: np_add_def nonfinite_def)

lemma np_add_nonfinite_right: "nonfinite y \<Longrightarrow> nonfinite (np_add rnd x y)"
  by (cases x; cases y) (simp_all add: np_add_def nonfinite_def)

lemma np_sum_Nil: "np_sum rnd [] = Fin 0"
  by (simp add: np_sum_def pairwise_sum.simps np_add_def)

subsection \<open>Exact arithmetic\<close>

lemma ex_add: "np_add exact_round (Fin a) (Fin b) = Fin (a + b)"
  by (simp add: np_add_def exact_round_def)

lemma ex_sub: "np_sub exact_round (Fin a) (Fin b) = Fin (a - b)"
  by (simp add: np_sub_def np_add_def exact_round_def)

lemma ex_mul: "fin_val (np_mul exact_round (Fin a) (Fin b)) (a * b)"
  by (auto simp: np_mul_def exact_round_def fin_val_def signed_zero_def)

lemma ex_div: "d \<noteq> 0 \<Longrightarrow> fin_val y v \<Longrightarrow> fin_val (np_div exact_round y (Fin d)) (v / d)"
  by (auto simp: np_div_def exact_round_def fin_val_def signed_zero_def)

lemma ex_add_fin_val: "fin_val y v \<Longrightarrow> np_add exact_round (Fin m) y = Fin (m + v)"
  by (auto simp: np_add_def exact_round_def fin_val_def)

lemma ex_term:
  "d \<noteq> 0 \<Longrightarrow>
   np_add exact_round (Fin m) (np_div exact_round (np_mul exact_round (Fin t) (Fin p)) (Fin d))
     = Fin (m + t * p / d)"
  by (rule ex_add_fin_val) (rule ex_div, assumption, rule ex_mul)

lemma ex_foldl: "foldl (np_add exact_round) (Fin a) (map Fin ys) = Fin (a + sum_list ys)"
  by (induction ys arbitrary: a) (simp_all add: ex_add add.assoc)

lemma ex_map2: "map2 (np_add exact_round) (map Fin r) (map Fin t) = map Fin (map2 (+) r t)"
proof (induction r arbitrary: t)
  case Nil
  then show ?case by simp
next
  case (Cons a r)
  then show ?case by (cases t) (simp_all add: ex_add)
qed

lemma sum_take_drop: "sum_list (take k xs) + sum_list (drop k xs) = sum_list (xs::real list)"
proof -
  have "sum_list (take k xs @ drop k xs) = sum_list xs" by simp
  then show ?thesis by (simp only: sum_list_append)
qed

lemma sum_list_map2_add:
  "length r = length t \<Longrightarrow> sum_list (map2 (+) r t) = sum_list r + sum_list (t::real list)"
  by (induction r t rule: list_induct2) simp_all

lemma ex_acc8:
  "length r = 8 \<Longrightarrow> 8 dvd length ys \<Longrightarrow>
   \<exists>r'. acc8 exact_round (map Fin r) (map Fin ys) = map Fin r' \<and> length r' = 8
       \<and> sum_list r' = sum_list r + sum_list ys"
proof (induction "length ys" arbitrary: r ys rule: less_induct)
  case less
  show ?case
  proof (cases "length ys < 8")
    case True
    then have "ys = []" using less.prems(2) by (auto dest: dvd_imp_le)
    then show ?thesis using less.prems(1) by (auto simp: acc8.simps intro!: exI[of _ r])
  next
    case False
    let ?t = "take 8 ys" and ?d = "drop 8 ys"
    let ?r = "map2 (+) r ?t"
    have lt: "length ?t = 8" using False by simp
    have lr: "length ?r = 8" using less.prems(1) lt by simp
    have dv: "8 dvd length ?d" using less.prems(2) False by (simp add: dvd_diff_nat)
    have sm: "length ?d < length ys" using False by simp
    obtain r' where r': "acc8 exact_round (map Fin ?r) (map Fin ?d) = map Fin r'"
        "length r' = 8" "sum_list r' = sum_list ?r + sum_list ?d"
      using less.hyps[OF sm lr dv] by blast
    have "sum_list ?r = sum_list r + sum_list ?t"
      using less.prems(1) lt by (simp add: sum_list_map2_add)
    moreover have "sum_list ?t + sum_list ?d = sum_list ys"
      by (rule sum_take_drop)
    ultimately have s: "sum_list r' = sum_list r + sum_list ys" using r'(3) by simp
    have "acc8 exact_round (map Fin r) (map Fin ys)
        = acc8 exact_round (map2 (np_add exact_round) (map Fin r) (map Fin ?t)) (map Fin ?d)"
      using False by (subst acc8.simps) (simp add: take_map drop_map)
    then have "acc8 exact_round (map Fin r) (map Fin ys) = map Fin r'"
      using r'(1) by (simp only: ex_map2)
    then show ?thesis using r'(2) s by blast
  qed
qed

lemma pairwise_sum_small:
  "length xs < 8 \<Longrightarrow> pairwise_sum rnd xs = foldl (np_add rnd) (Fin 0) xs"
  by (subst pairwise_sum.simps) simp

lemma pairwise_sum_block:
  "8 \<le> length xs \<Longrightarrow> length xs \<le> 128 \<Longrightarrow>
   pairwise_sum rnd xs =
     foldl (np_add rnd)
       (tree8 rnd (acc8 rnd (take 8 xs) (drop 8 (take (length xs - length xs mod 8) xs))))
       (drop (length xs - length xs mod 8) xs)"
  by (subst pairwise_sum.simps) simp

lemma pairwise_sum_split:
  "128 < length xs \<Longrightarrow>
   pairwise_sum rnd xs =
     np_add rnd
       (pairwise_sum rnd (take (length xs div 2 - (length xs div 2) mod 8) xs))
       (pairwise_sum rnd (drop (length xs div 2 - (length xs div 2) mod 8) xs))"
  by (subst pairwise_sum.simps) simp

lemma list8:
  "length (r::'a list) = 8 \<Longrightarrow> \<exists>a b c d e f g h. r = [a, b, c, d, e, f, g, h]"
proof -
  assume "length r = 8"
  then have "length r = Suc (Suc (Suc (Suc (Suc (Suc (Suc (Suc 0)))))))" by simp
  then show ?thesis by (clarsimp simp: length_Suc_conv)
qed

lemma ex_tree8: "length r = 8 \<Longrightarrow> tree8 exact_round (map Fin r) = Fin (sum_list r)"
proof -
  assume "length r = 8"
  then obtain a b c d e f g h where "r = [a, b, c, d, e, f, g, h]"
    using list8 by blast
  then show ?thesis by (simp add: tree8_def ex_add)
qed

lemma ex_pairwise_sum: "pairwise_sum exact_round (map Fin ys) = Fin (sum_list ys)"
proof (induction "length ys" arbitrary: ys rule: less_induct)
  case less
  let ?n = "length ys"
  consider "?n < 8" | "8 \<le> ?n" "?n \<le> 128" | "128 < ?n" by linarith
  then show ?case
  proof cases
    case 1
    then show ?thesis by (simp add: pairwise_sum_small ex_foldl)
  next
    case 2
    let ?m = "?n - ?n mod 8"
    define k where "k = ?n div 8"
    have mk: "?m = 8 * k" by (simp add: k_def minus_mod_eq_mult_div)
    have "0 < k" using 2(1) by (simp add: k_def div_greater_zero_iff)
    then have m8: "8 \<le> ?m" by (simp add: mk)
    have l8: "length (take 8 ys) = 8" using 2(1) by simp
    have "length (take ?m ys) = 8 * k" using mk by simp
    then have "length (drop 8 (take ?m ys)) = 8 * (k - 1)"
      by (simp only: length_drop right_diff_distrib' mult_1_right)
    then have dv: "8 dvd length (drop 8 (take ?m ys))" by simp
    obtain r' where r': "acc8 exact_round (map Fin (take 8 ys)) (map Fin (drop 8 (take ?m ys)))
          = map Fin r'" "length r' = 8"
        "sum_list r' = sum_list (take 8 ys) + sum_list (drop 8 (take ?m ys))"
      using ex_acc8[OF l8 dv] by blast
    have "take 8 ys = take 8 (take ?m ys)" using m8 by (simp add: min_def)
    then have "sum_list (take 8 ys) + sum_list (drop 8 (take ?m ys)) = sum_list (take ?m ys)"
      using sum_take_drop[of 8 "take ?m ys"] by (simp only:)
    moreover have "sum_list (take ?m ys) + sum_list (drop ?m ys) = sum_list ys"
      by (rule sum_take_drop)
    ultimately have s: "sum_list r' + sum_list (drop ?m ys) = sum_list ys" using r'(3) by simp
    have "pairwise_sum exact_round (map Fin ys)
        = foldl (np_add exact_round)
            (tree8 exact_round
               (acc8 exact_round (map Fin (take 8 ys)) (map Fin (drop 8 (take ?m ys)))))
            (map Fin (drop ?m ys))"
      using 2 pairwise_sum_block[of "map Fin ys" exact_round]
      by (simp only: length_map take_map drop_map)
    also have "\<dots> = foldl (np_add exact_round) (Fin (sum_list r')) (map Fin (drop ?m ys))"
      by (simp only: r'(1) ex_tree8[OF r'(2)])
    also have "\<dots> = Fin (sum_list r' + sum_list (drop ?m ys))"
      by (rule ex_foldl)
    finally show ?thesis by (simp only: s)
  next
    case 3
    define h where "h = ?n div 2 - (?n div 2) mod 8"
    have "h \<le> ?n div 2" by (simp add: h_def)
    moreover have "?n div 2 < h + 8"
      using mod_less_divisor[of 8 "?n div 2"] unfolding h_def by linarith
    ultimately have h: "0 < h" "h < ?n" using 3 by linarith+
    have lt: "length (take h ys) < ?n" using h by simp
    have ld: "length (drop h ys) < ?n" using h by simp
    have a: "pairwise_sum exact_round (map Fin (take h ys)) = Fin (sum_list (take h ys))"
      by (rule less.hyps[OF lt])
    have b: "pairwise_sum exact_round (map Fin (drop h ys)) = Fin (sum_list (drop h ys))"
      by (rule less.hyps[OF ld])
    have "pairwise_sum exact_round (map Fin ys)
        = np_add exact_round (pairwise_sum exact_round (map Fin (take h ys)))
            (pairwise_sum exact_round (map Fin (drop h ys)))"
      using 3 pairwise_sum_split[of "map Fin ys" exact_round]
      by (simp only: length_map take_map drop_map h_def)
    then show ?thesis by (simp only: a b ex_add sum_take_drop)
  qed
qed

lemma ex_np_sum: "np_sum exact_round (map Fin ys) = Fin (sum_list ys)"
  by (simp add: np_sum_def ex_pairwise_sum ex_add)

section \<open>Facts about the loop\<close>

lemma dwa_nonempty:
  "soil_prop \<noteq> [] \<Longrightarrow>
   depth_weighted_average rnd thickness soil_prop depth =
     (if halfspace_branch rnd thickness soil_prop depth
      then Inr (np_add rnd (mean_value (after_loop rnd thickness soil_prop depth))
                 (np_div rnd
                    (np_mul rnd
                       (np_sub rnd depth (total_depth (after_loop rnd thickness soil_prop depth)))
                       (last soil_prop))
                    depth))
      else Inr (mean_value (after_loop rnd thickness soil_prop depth)))"
  by (cases soil_prop) (simp_all add: depth_weighted_average_def Let_def)

lemma dwa_no_branch:
  "\<not> halfspace_branch rnd thickness soil_prop depth \<Longrightarrow>
   depth_weighted_average rnd thickness soil_prop depth
     = Inr (mean_value (after_loop rnd thickness soil_prop depth))"
  by (simp add: depth_weighted_average_def Let_def)

text \<open>
  In any arithmetic \<open>total_depth\<close> stays strictly below \<open>depth\<close>: it is advanced only to
  the value that has just passed the test.
\<close>

lemma loop_total_below:
  "np_lt (total_depth s) depth \<Longrightarrow> np_lt (total_depth (dwa_loop rnd ps depth s)) depth"
proof (induction ps arbitrary: s)
  case Nil
  then show ?case by simp
next
  case (Cons p ps)
  obtain tk sp where p: "p = (tk, sp)" by (cases p)
  show ?case
  proof (cases "np_lt (np_add rnd tk (total_depth s)) depth")
    case True
    then have "np_lt (np_add rnd (total_depth s) tk) depth"
      by (simp only: np_add_commute[of rnd tk])
    then show ?thesis using True by (simp add: p Cons.IH)
  next
    case False
    then show ?thesis using Cons.prems by (simp add: p)
  qed
qed

text \<open>Once the accumulated value is an infinity or a NaN it stays one.\<close>

lemma loop_mean_nonfinite:
  "nonfinite (mean_value s) \<Longrightarrow> nonfinite (mean_value (dwa_loop rnd ps depth s))"
proof (induction ps arbitrary: s)
  case Nil
  then show ?case by simp
next
  case (Cons p ps)
  obtain tk sp where p: "p = (tk, sp)" by (cases p)
  show ?case
    using Cons.prems by (simp add: p Cons.IH np_add_nonfinite_left)
qed

lemma loop_zero_depth:
  "is_zero depth \<Longrightarrow> ps \<noteq> [] \<Longrightarrow> nonfinite (mean_value (dwa_loop rnd ps depth s))"
proof (cases ps)
  case Nil
  assume "ps \<noteq> []"
  then show ?thesis using Nil by simp
next
  case (Cons p ps')
  assume z: "is_zero depth"
  obtain tk sp where p: "p = (tk, sp)" by (cases p)
  show ?thesis
    using z
    by (simp add: Cons p loop_mean_nonfinite np_add_nonfinite_right np_div_zero_nonfinite)
qed

subsection \<open>The loop in exact arithmetic\<close>

lemma zip_map_Fin: "zip (map Fin xs) ys = map (apfst Fin) (zip xs ys)"
proof (induction xs arbitrary: ys)
  case Nil
  then show ?case by simp
next
  case (Cons a xs)
  then show ?case by (cases ys) simp_all
qed

text \<open>
  While the layers seen so far end above \<open>depth\<close> the loop does not break, and
  \<open>total_depth\<close> is the sum of their thicknesses.
\<close>

lemma ex_loop_no_break:
  "\<forall>p\<in>set ps. 0 \<le> fst p \<Longrightarrow> total_depth s = Fin z \<Longrightarrow> z + sum_list (map fst ps) < depth \<Longrightarrow>
   total_depth (dwa_loop exact_round (map (apfst Fin) ps) (Fin depth) s)
     = Fin (z + sum_list (map fst ps))
   \<and> broke (dwa_loop exact_round (map (apfst Fin) ps) (Fin depth) s) = broke s"
proof (induction ps arbitrary: s z)
  case Nil
  then show ?case by simp
next
  case (Cons p ps)
  obtain tk sp where p: "p = (tk, sp)" by (cases p)
  have nn: "0 \<le> sum_list (map fst ps)"
    using Cons.prems(1) by (intro sum_list_nonneg) auto
  have lt: "tk + z < depth"
    using Cons.prems(3) nn by (simp add: p)
  let ?s' = "s\<lparr>mean_value :=
                  np_add exact_round (mean_value s)
                    (np_div exact_round (np_mul exact_round (Fin tk) sp) (Fin depth)),
                total_depth := Fin (z + tk)\<rparr>"
  have "total_depth (dwa_loop exact_round (map (apfst Fin) ps) (Fin depth) ?s')
          = Fin ((z + tk) + sum_list (map fst ps))
        \<and> broke (dwa_loop exact_round (map (apfst Fin) ps) (Fin depth) ?s') = broke ?s'"
    using Cons.prems by (intro Cons.IH) (auto simp: p)
  then show ?case
    using lt Cons.prems(2) by (simp add: p ex_add np_lt_Fin add.assoc)
qed

text \<open>
  When the layers reach \<open>depth\<close> the loop breaks, and it breaks strictly above both
  \<open>depth\<close> and the bottom of the last layer.
\<close>

lemma ex_loop_break:
  "\<forall>p\<in>set ps. 0 \<le> fst p \<Longrightarrow> total_depth s = Fin z \<Longrightarrow> z < depth \<Longrightarrow>
   \<not> z + sum_list (map fst ps) < depth \<Longrightarrow>
   (\<exists>z'. total_depth (dwa_loop exact_round (map (apfst Fin) ps) (Fin depth) s) = Fin z'
        \<and> z' < z + sum_list (map fst ps) \<and> z' < depth)
   \<and> broke (dwa_loop exact_round (map (apfst Fin) ps) (Fin depth) s)"
proof (induction ps arbitrary: s z)
  case Nil
  then show ?case by simp
next
  case (Cons p ps)
  obtain tk sp where p: "p = (tk, sp)" by (cases p)
  have nn: "0 \<le> sum_list (map fst ps)"
    using Cons.prems(1) by (intro sum_list_nonneg) auto
  show ?case
  proof (cases "tk + z < depth")
    case True
    let ?s' = "s\<lparr>mean_value :=
                    np_add exact_round (mean_value s)
                      (np_div exact_round (np_mul exact_round (Fin tk) sp) (Fin depth)),
                  total_depth := Fin (z + tk)\<rparr>"
    have "(\<exists>z'. total_depth (dwa_loop exact_round (map (apfst Fin) ps) (Fin depth) ?s') = Fin z'
              \<and> z' < (z + tk) + sum_list (map fst ps) \<and> z' < depth)
        \<and> broke (dwa_loop exact_round (map (apfst Fin) ps) (Fin depth) ?s')"
      using Cons.prems True by (intro Cons.IH) (auto simp: p add.commute add.assoc)
    then show ?thesis
      using True Cons.prems(2) by (simp add: p ex_add np_lt_Fin add.assoc)
  next
    case False
    then show ?thesis
      using Cons.prems nn by (simp add: p ex_add np_lt_Fin)
  qed
qed





subsection \<open>Sums of positive float64 values\<close>

lemma pow2_power_int: "pow2 e = 2 powi e"
proof (cases "0 \<le> e")
  case True
  then show ?thesis by (simp add: pow2_def power_int_def)
next
  case False
  then show ?thesis
    by (simp add: pow2_def power_int_def power_one_over[symmetric] inverse_eq_divide)
qed

lemma pow2_pos: "0 < pow2 e"
  by (simp add: pow2_power_int)

lemma pow2_plus1: "pow2 (e + 1) = 2 * pow2 e"
  by (simp add: pow2_power_int power_int_add)

lemma pow2_mono: "a \<le> b \<Longrightarrow> pow2 a \<le> pow2 b"
  by (simp add: pow2_power_int power_int_increasing)

lemma pow2_least: "pow2 (- 1074) = least_pos"
  by (simp add: pow2_def least_pos_def)

lemma least_pos_pos: "0 < least_pos"
  by (simp add: least_pos_def)

lemma exp_up_bounds: "1 \<le> x \<Longrightarrow> e \<le> exp_up e x \<and> pow2 (exp_up e x - e) \<le> x"
proof (induction e x rule: exp_up.induct)
  case (1 e x)
  show ?case
  proof (cases "2 \<le> x \<and> e < 1024")
    case True
    then have "e + 1 \<le> exp_up (e + 1) (x / 2) \<and> pow2 (exp_up (e + 1) (x / 2) - (e + 1)) \<le> x / 2"
      using "1.IH" by simp
    moreover have "pow2 (exp_up (e + 1) (x / 2) - e) = 2 * pow2 (exp_up (e + 1) (x / 2) - (e + 1))"
      using pow2_plus1[of "exp_up (e + 1) (x / 2) - (e + 1)"] by (simp add: algebra_simps)
    ultimately show ?thesis
      using True by (subst (1 2) exp_up.simps) simp
  next
    case False
    then show ?thesis
      using "1.prems" by (subst (1 2) exp_up.simps) (auto simp: pow2_def)
  qed
qed

lemma exp_down_bounds:
  "0 < x \<Longrightarrow> - 1022 \<le> e \<Longrightarrow>
   - 1022 \<le> exp_down e x \<and> exp_down e x \<le> e
   \<and> (exp_down e x = - 1022 \<or> pow2 (exp_down e x - e) \<le> x)"
proof (induction e x rule: exp_down.induct)
  case (1 e x)
  show ?case
  proof (cases "x < 1 \<and> - 1022 < e")
    case True
    let ?e' = "exp_down (e - 1) (x * 2)"
    have IH: "- 1022 \<le> ?e' \<and> ?e' \<le> e - 1 \<and> (?e' = - 1022 \<or> pow2 (?e' - (e - 1)) \<le> x * 2)"
      using "1.IH" True "1.prems" by simp
    have "pow2 (?e' - (e - 1)) = 2 * pow2 (?e' - e)"
      using pow2_plus1[of "?e' - e"] by (simp add: algebra_simps)
    then have "?e' = - 1022 \<or> pow2 (?e' - e) \<le> x" using IH by auto
    moreover have "exp_down e x = ?e'" using True by (subst exp_down.simps) simp
    ultimately show ?thesis using IH by simp
  next
    case False
    then have "exp_down e x = e" by (subst exp_down.simps) (simp only: if_False)
    then show ?thesis using False "1.prems" by (auto simp: pow2_def)
  qed
qed

lemma binade_spacing:
  assumes "least_pos \<le> r"
  shows "least_pos \<le> pow2 (binade r - 52) \<and> pow2 (binade r - 52) \<le> r"
proof (cases "1 \<le> r")
  case True
  have b: "0 \<le> exp_up 0 r" "pow2 (exp_up 0 r) \<le> r"
    using exp_up_bounds[OF True, of 0] by simp_all
  have "pow2 (- 1074) \<le> pow2 (exp_up 0 r - 52)" using b(1) by (intro pow2_mono) simp
  moreover have "pow2 (exp_up 0 r - 52) \<le> pow2 (exp_up 0 r)" by (intro pow2_mono) simp
  ultimately show ?thesis using True b(2) by (simp add: binade_def pow2_least)
next
  case False
  have r0: "0 < r" using assms least_pos_pos by linarith
  let ?e = "exp_down 0 r"
  have b: "- 1022 \<le> ?e" "?e \<le> 0" "?e = - 1022 \<or> pow2 ?e \<le> r"
    using exp_down_bounds[OF r0, of 0] by simp_all
  have lo: "pow2 (- 1074) \<le> pow2 (?e - 52)" using b(1) by (intro pow2_mono) simp
  have "pow2 (?e - 52) \<le> r"
  proof (cases "?e = - 1022")
    case True
    then show ?thesis using assms by (simp add: pow2_least)
  next
    case False
    then have "pow2 ?e \<le> r" using b(3) by simp
    moreover have "pow2 (?e - 52) \<le> pow2 ?e" by (intro pow2_mono) simp
    ultimately show ?thesis by simp
  qed
  then show ?thesis using False lo by (simp add: binade_def pow2_least)
qed

lemma round_half_even_ge1: "1 \<le> x \<Longrightarrow> 1 \<le> round_half_even x"
proof -
  assume "1 \<le> x"
  then have "1 \<le> \<lfloor>x\<rfloor>" by simp
  then show ?thesis by (simp add: round_half_even_def Let_def)
qed

lemma round_double_pos:
  assumes "least_pos \<le> r"
  shows "pos_double (round_double r)"
proof -
  define q where "q = pow2 (binade \<bar>r\<bar> - 52)"
  define y where "y = of_int (round_half_even (r / q)) * q"
  have r0: "0 < r" using assms least_pos_pos by linarith
  then have ar: "\<bar>r\<bar> = r" by simp
  have q: "least_pos \<le> q" "q \<le> r" using binade_spacing[OF assms] by (simp_all add: ar q_def)
  have q0: "0 < q" unfolding q_def by (rule pow2_pos)
  have "1 \<le> r / q" using q(2) q0 by simp
  then have "1 \<le> round_half_even (r / q)" by (rule round_half_even_ge1)
  then have "(1::real) \<le> of_int (round_half_even (r / q))" by simp
  then have "1 * q \<le> y" unfolding y_def using q0 by (intro mult_right_mono) simp_all
  then have y: "least_pos \<le> y" using q(1) by simp
  then have y0: "y \<noteq> 0" using least_pos_pos by linarith
  have rd: "round_double r =
      (if overflow_threshold \<le> \<bar>y\<bar> then signed_inf (r < 0)
       else if y = 0 then signed_zero (r < 0) else Fin y)"
    by (simp only: round_double_def Let_def q_def y_def)
  show ?thesis
  proof (cases "overflow_threshold \<le> \<bar>y\<bar>")
    case True
    then show ?thesis using r0 by (simp add: rd signed_inf_def pos_double_def)
  next
    case False
    then show ?thesis using y y0 by (simp add: rd pos_double_def)
  qed
qed

lemma pos_double_add:
  "pos_double x \<Longrightarrow> pos_double y \<Longrightarrow> pos_double (np_add round_double x y)"
proof -
  assume x: "pos_double x" and y: "pos_double y"
  consider "x = PInf" | "y = PInf" "x \<noteq> PInf"
    | a b where "x = Fin a" "y = Fin b" "least_pos \<le> a" "least_pos \<le> b"
    using x y unfolding pos_double_def by metis
  then show ?thesis
  proof cases
    case 1
    then show ?thesis using y by (cases y) (simp_all add: np_add_def pos_double_def)
  next
    case 2
    then show ?thesis using x by (cases x) (simp_all add: np_add_def pos_double_def)
  next
    case 3
    have "least_pos \<le> a + b" "a + b \<noteq> 0" using 3(3,4) least_pos_pos by linarith+
    then show ?thesis using 3(1,2) by (simp add: np_add_def round_double_pos)
  qed
qed

lemma pos_double_add_zero: "pos_double x \<Longrightarrow> pos_double (np_add round_double (Fin 0) x)"
proof -
  assume x: "pos_double x"
  consider "x = PInf" | a where "x = Fin a" "least_pos \<le> a"
    using x unfolding pos_double_def by metis
  then show ?thesis
  proof cases
    case 1
    then show ?thesis by (simp add: np_add_def pos_double_def)
  next
    case 2
    have "a \<noteq> 0" using 2(2) least_pos_pos by linarith
    then show ?thesis using 2 by (simp add: np_add_def round_double_pos)
  qed
qed

lemma pos_double_lt: "pos_double x \<Longrightarrow> np_lt (Fin 0) x"
proof -
  assume x: "pos_double x"
  consider "x = PInf" | a where "x = Fin a" "least_pos \<le> a"
    using x unfolding pos_double_def by metis
  then show ?thesis
  proof cases
    case 1
    then show ?thesis by (simp add: np_lt_def)
  next
    case 2
    have "0 < a" using 2(2) least_pos_pos by linarith
    then show ?thesis using 2 by (simp add: np_lt_def)
  qed
qed

lemma pos_foldl:
  "pos_double a \<Longrightarrow> \<forall>x\<in>set xs. pos_double x \<Longrightarrow> pos_double (foldl (np_add round_double) a xs)"
  by (induction xs arbitrary: a) (simp_all add: pos_double_add)

lemma pos_foldl_zero:
  "xs \<noteq> [] \<Longrightarrow> \<forall>x\<in>set xs. pos_double x \<Longrightarrow>
   pos_double (foldl (np_add round_double) (Fin 0) xs)"
  by (cases xs) (simp_all add: pos_foldl pos_double_add_zero)

lemma pos_map2:
  "\<forall>x\<in>set r. pos_double x \<Longrightarrow> \<forall>x\<in>set t. pos_double x \<Longrightarrow>
   \<forall>x\<in>set (map2 (np_add round_double) r t). pos_double x"
  by (auto dest: set_zip_leftD set_zip_rightD intro: pos_double_add)

lemma pos_acc8:
  "length r = 8 \<Longrightarrow> \<forall>x\<in>set r. pos_double x \<Longrightarrow> \<forall>x\<in>set xs. pos_double x \<Longrightarrow>
   length (acc8 round_double r xs) = 8 \<and> (\<forall>x\<in>set (acc8 round_double r xs). pos_double x)"
proof (induction "length xs" arbitrary: r xs rule: less_induct)
  case less
  show ?case
  proof (cases "length xs < 8")
    case True
    then show ?thesis using less.prems by (subst (1 2) acc8.simps) simp
  next
    case False
    let ?r = "map2 (np_add round_double) r (take 8 xs)"
    have lr: "length ?r = 8" using less.prems(1) False by simp
    have pr: "\<forall>x\<in>set ?r. pos_double x"
      using less.prems(2,3) by (intro pos_map2) (auto dest: in_set_takeD)
    have pd: "\<forall>x\<in>set (drop 8 xs). pos_double x"
      using less.prems(3) by (auto dest: in_set_dropD)
    have sm: "length (drop 8 xs) < length xs" using False by simp
    have "acc8 round_double r xs = acc8 round_double ?r (drop 8 xs)"
      using False by (subst acc8.simps) simp
    then show ?thesis using less.hyps[OF sm lr pr pd] by simp
  qed
qed

lemma pos_tree8:
  "length r = 8 \<Longrightarrow> \<forall>x\<in>set r. pos_double x \<Longrightarrow> pos_double (tree8 round_double r)"
proof -
  assume "length r = 8" and p: "\<forall>x\<in>set r. pos_double x"
  then obtain a b c d e f g h where "r = [a, b, c, d, e, f, g, h]"
    using list8 by blast
  then show ?thesis using p by (simp add: tree8_def pos_double_add)
qed

lemma pos_pairwise_sum:
  "xs \<noteq> [] \<Longrightarrow> \<forall>x\<in>set xs. pos_double x \<Longrightarrow> pos_double (pairwise_sum round_double xs)"
proof (induction "length xs" arbitrary: xs rule: less_induct)
  case less
  let ?n = "length xs"
  consider "?n < 8" | "8 \<le> ?n" "?n \<le> 128" | "128 < ?n" by linarith
  then show ?case
  proof cases
    case 1
    then show ?thesis using less.prems by (simp add: pairwise_sum_small pos_foldl_zero)
  next
    case 2
    let ?m = "?n - ?n mod 8"
    have l8: "length (take 8 xs) = 8" using 2(1) by simp
    have p8: "\<forall>x\<in>set (take 8 xs). pos_double x"
      using less.prems(2) by (auto dest: in_set_takeD)
    have pm: "\<forall>x\<in>set (drop 8 (take ?m xs)). pos_double x"
      using less.prems(2) by (auto dest!: in_set_dropD in_set_takeD)
    have acc: "length (acc8 round_double (take 8 xs) (drop 8 (take ?m xs))) = 8"
        "\<forall>x\<in>set (acc8 round_double (take 8 xs) (drop 8 (take ?m xs))). pos_double x"
      using pos_acc8[OF l8 p8 pm] by simp_all
    have tr: "pos_double (tree8 round_double
        (acc8 round_double (take 8 xs) (drop 8 (take ?m xs))))"
      by (rule pos_tree8[OF acc])
    have pr: "\<forall>x\<in>set (drop ?m xs). pos_double x"
      using less.prems(2) by (auto dest: in_set_dropD)
    show ?thesis
      by (simp only: pairwise_sum_block[OF 2] pos_foldl[OF tr pr])
  next
    case 3
    define h where "h = ?n div 2 - (?n div 2) mod 8"
    have "h \<le> ?n div 2" by (simp add: h_def)
    moreover have "?n div 2 < h + 8"
      using mod_less_divisor[of 8 "?n div 2"] unfolding h_def by linarith
    ultimately have h: "0 < h" "h < ?n" using 3 by linarith+
    have a: "pos_double (pairwise_sum round_double (take h xs))"
      using h less.prems(2) by (intro less.hyps) (auto dest: in_set_takeD)
    have b: "pos_double (pairwise_sum round_double (drop h xs))"
      using h less.prems(2) by (intro less.hyps) (auto dest: in_set_dropD)
    have "pairwise_sum round_double xs
        = np_add round_double (pairwise_sum round_double (take h xs))
            (pairwise_sum round_double (drop h xs))"
      unfolding h_def by (rule pairwise_sum_split[OF 3])
    then show ?thesis using pos_double_add[OF a b] by simp
  qed
qed

lemma pos_np_sum:
  "xs \<noteq> [] \<Longrightarrow> \<forall>x\<in>set xs. pos_double x \<Longrightarrow> np_lt (Fin 0) (np_sum round_double xs)"
  by (simp add: np_sum_def pos_double_lt pos_double_add_zero pos_pairwise_sum)

lemma ex_pos_np_sum:
  "ts \<noteq> [] \<Longrightarrow> \<forall>t\<in>set ts. 0 < t \<Longrightarrow> np_lt (Fin 0) (np_sum exact_round (map Fin ts))"
proof -
  assume "ts \<noteq> []" "\<forall>t\<in>set ts. 0 < t"
  then have "0 < sum_list ts"
    by (induction ts) (auto intro: add_pos_nonneg sum_list_nonneg less_imp_le)
  then show ?thesis by (simp add: ex_np_sum np_lt_Fin)
qed

section \<open>Evaluation on concrete inputs\<close>

lemmas dwa_unfold =
  depth_weighted_average_def halfspace_branch_def after_loop_def init_state_def

lemmas arith_eval =
  np_add_def np_sub_def np_mul_def np_div_def np_lt_def np_eq_def
  signed_zero_def signed_inf_def Let_def

lemmas float_eval =
  arith_eval round_double_def binade_def pow2_def round_half_even_def overflow_threshold_def
  exp_up.simps exp_down.simps

lemmas exact_eval = arith_eval exact_round_def

lemmas sum_eval = np_sum_def pairwise_sum.simps acc8.simps tree8_def

lemma round_tenth: "round_double (1 / 10) = Fin tenth"
  by (simp add: float_eval tenth_def)

lemma thin_sum: "np_sum round_double (butlast thin_layers) = Fin 1"
  by (simp add: sum_eval thin_layers_def tenth_def float_eval)


lemma thin_loop_1:
  "after_loop round_double thin_layers unit_prop (Fin 1)
     = \<lparr>mean_value = Fin (9007199254740991 / 2 ^ 53),
        total_depth = Fin (9007199254740991 / 2 ^ 53), broke = False\<rparr>"
  by (simp add: after_loop_def init_state_def thin_layers_def unit_prop_def tenth_def float_eval)


section \<open>The claims\<close>




text \<open>
  C2, as the specification states it: with depth exactly equal to the cumulative
  thickness of the layers above the half-space, the half-space branch is taken. The code
  does otherwise. For thicknesses \<open>[4, 6, 1]\<close> and depth \<open>4 + 6 = 10\<close> the second layer
  fails the strict test \<open>6 + 4 < 10\<close>, the loop breaks with \<open>total_depth = 4\<close>, and
  the test \<open>4 == 10\<close> after the loop fails; every number here is exact in float64.
\<close>

theorem halfspace_at_interface_counterexample:
  "np_sum round_double (butlast [Fin 4, Fin 6, Fin 1]) = Fin 10
   \<and> after_loop round_double [Fin 4, Fin 6, Fin 1] [Fin 1, Fin 2, Fin 3] (Fin 10)
       = \<lparr>mean_value = round_double (8 / 5), total_depth = Fin 4, broke = True\<rparr>
   \<and> \<not> halfspace_branch round_double [Fin 4, Fin 6, Fin 1] [Fin 1, Fin 2, Fin 3] (Fin 10)
   \<and> after_loop exact_round [Fin 4, Fin 6, Fin 1] [Fin 1, Fin 2, Fin 3] (Fin 10)
       = \<lparr>mean_value = Fin (4 * 1 / 10 + (10 - 4) * 2 / 10), total_depth = Fin 4, broke = True\<rparr>
   \<and> \<not> halfspace_branch exact_round [Fin 4, Fin 6, Fin 1] [Fin 1, Fin 2, Fin 3] (Fin 10)"
proof -
  have s: "np_sum round_double (butlast [Fin 4, Fin 6, Fin 1]) = Fin 10"
    by (simp add: sum_eval float_eval)
  have l: "after_loop round_double [Fin 4, Fin 6, Fin 1] [Fin 1, Fin 2, Fin 3] (Fin 10)
       = \<lparr>mean_value = round_double (8 / 5), total_depth = Fin 4, broke = True\<rparr>"
    by (simp add: after_loop_def init_state_def float_eval)
  have se: "np_sum exact_round (butlast [Fin 4, Fin 6, Fin 1]) = Fin 10"
    by (simp add: sum_eval exact_eval)
  have le: "after_loop exact_round [Fin 4, Fin 6, Fin 1] [Fin 1, Fin 2, Fin 3] (Fin 10)
       = \<lparr>mean_value = Fin (4 * 1 / 10 + (10 - 4) * 2 / 10), total_depth = Fin 4, broke = True\<rparr>"
    by (simp add: after_loop_def init_state_def exact_eval)
  have "\<not> halfspace_branch round_double [Fin 4, Fin 6, Fin 1] [Fin 1, Fin 2, Fin 3] (Fin 10)"
    unfolding halfspace_branch_def l s by (simp add: np_eq_def)
  moreover have
    "\<not> halfspace_branch exact_round [Fin 4, Fin 6, Fin 1] [Fin 1, Fin 2, Fin 3] (Fin 10)"
    unfolding halfspace_branch_def le se by (simp add: np_eq_def)
  ultimately show ?thesis using s l le by simp
qed

text \<open>
  C2, amended. For a thickness array of length at least 2 with positive entries above
  the half-space, or more generally with a positive \<^verbatim>\<open>_np.sum(thickness[:-1])\<close>,
  calling \<open>depth_weighted_average\<close> with depth exactly equal to that sum does not take
  the half-space branch: \<open>total_depth\<close> is advanced only to a value that has passed the
  strict test, so it stays strictly below depth, the test after the loop fails, and
  the loop's mean value is returned with no half-space term. This holds on float64 and
  in exact arithmetic alike.
\<close>

theorem halfspace_at_interface:
  assumes "2 \<le> length th"
    and "(rnd = round_double \<and> (\<forall>t\<in>set (butlast th). pos_double t))
       \<or> (rnd = exact_round \<and> (\<forall>t\<in>set (butlast th). t = Fin (val t) \<and> 0 < val t))
       \<or> np_lt (Fin 0) (np_sum rnd (butlast th))"
  shows "np_lt (total_depth (after_loop rnd th sp (np_sum rnd (butlast th))))
           (np_sum rnd (butlast th))
       \<and> \<not> halfspace_branch rnd th sp (np_sum rnd (butlast th))
       \<and> depth_weighted_average rnd th sp (np_sum rnd (butlast th))
           = Inr (mean_value (after_loop rnd th sp (np_sum rnd (butlast th))))"
proof -
  let ?d = "np_sum rnd (butlast th)"
  have ne: "butlast th \<noteq> []"
  proof
    assume "butlast th = []"
    then have "length (butlast th) = 0" by simp
    then show False using assms(1) by simp
  qed
  have pos: "np_lt (Fin 0) ?d"
    using assms(2)
  proof (elim disjE conjE)
    assume "rnd = round_double" "\<forall>t\<in>set (butlast th). pos_double t"
    then show ?thesis using pos_np_sum[OF ne] by simp
  next
    assume r: "rnd = exact_round" and p: "\<forall>t\<in>set (butlast th). t = Fin (val t) \<and> 0 < val t"
    have m: "map Fin (map val (butlast th)) = butlast th"
      using p by (simp add: map_idI)
    have "np_lt (Fin 0) (np_sum exact_round (map Fin (map val (butlast th))))"
      using ne p by (intro ex_pos_np_sum) auto
    then show ?thesis by (simp only: m r)
  next
    assume "np_lt (Fin 0) ?d"
    then show ?thesis .
  qed
  have below: "np_lt (total_depth (after_loop rnd th sp ?d)) ?d"
    unfolding after_loop_def
    by (rule loop_total_below) (simp add: init_state_def pos)
  then have nb: "\<not> halfspace_branch rnd th sp ?d"
    unfolding halfspace_branch_def by (rule np_lt_not_eq)
  show ?thesis
    using below nb dwa_no_branch[OF nb] by simp
qed

text \<open>
  Three instances. On float64 with thicknesses \<open>[4, 6, 0]\<close> the depth is 10 and the
  loop breaks at the second layer. On float64 with the ten thin layers the depth is
  \<open>1.0\<close>, the loop runs to its end with \<open>total_depth = 0.9999999999999999\<close>, and the
  branch is not taken either. In exact arithmetic with \<open>[4, 6, 0]\<close> the result is
  \<open>8 / 5\<close>.
\<close>

theorem halfspace_at_interface_witness:
  "2 \<le> length [Fin 4, Fin 6, Fin 0]
   \<and> list_all pos_double (butlast [Fin 4, Fin 6, Fin 0])
   \<and> np_sum round_double (butlast [Fin 4, Fin 6, Fin 0]) = Fin 10
   \<and> \<not> halfspace_branch round_double [Fin 4, Fin 6, Fin 0] [Fin 1, Fin 2, Fin 3] (Fin 10)
   \<and> depth_weighted_average round_double [Fin 4, Fin 6, Fin 0] [Fin 1, Fin 2, Fin 3] (Fin 10)
       = Inr (round_double (8 / 5))
   \<and> 2 \<le> length thin_layers
   \<and> list_all pos_double (butlast thin_layers)
   \<and> np_sum round_double (butlast thin_layers) = Fin 1
   \<and> \<not> halfspace_branch round_double thin_layers unit_prop (Fin 1)
   \<and> \<not> broke (after_loop round_double thin_layers unit_prop (Fin 1))
   \<and> depth_weighted_average round_double thin_layers unit_prop (Fin 1)
       = Inr (Fin (9007199254740991 / 2 ^ 53))
   \<and> list_all (\<lambda>t. t = Fin (val t) \<and> 0 < val t) (butlast [Fin 4, Fin 6, Fin 0])
   \<and> np_sum exact_round (butlast [Fin 4, Fin 6, Fin 0]) = Fin 10
   \<and> \<not> halfspace_branch exact_round [Fin 4, Fin 6, Fin 0] [Fin 1, Fin 2, Fin 3] (Fin 10)
   \<and> depth_weighted_average exact_round [Fin 4, Fin 6, Fin 0] [Fin 1, Fin 2, Fin 3] (Fin 10)
       = Inr (Fin (8 / 5))"
proof -
  have l1: "2 \<le> length [Fin 4, Fin 6, Fin 0]" by simp
  have p1: "\<forall>t\<in>set (butlast [Fin 4, Fin 6, Fin 0]). pos_double t"
    by (simp add: pos_double_def least_pos_def)
  have s1: "np_sum round_double (butlast [Fin 4, Fin 6, Fin 0]) = Fin 10"
    by (simp add: sum_eval float_eval)
  have m1: "mean_value (after_loop round_double [Fin 4, Fin 6, Fin 0] [Fin 1, Fin 2, Fin 3] (Fin 10))
      = round_double (8 / 5)"
    by (simp add: after_loop_def init_state_def float_eval)
  have l2: "2 \<le> length thin_layers" by (simp add: thin_layers_def)
  have p2: "\<forall>t\<in>set (butlast thin_layers). pos_double t"
    by (simp add: thin_layers_def tenth_def pos_double_def least_pos_def)
  have p3: "\<forall>t\<in>set (butlast [Fin 4, Fin 6, Fin 0]). t = Fin (val t) \<and> 0 < val t"
    by simp
  have s3: "np_sum exact_round (butlast [Fin 4, Fin 6, Fin 0]) = Fin 10"
    by (simp add: sum_eval exact_eval)
  have m3: "mean_value (after_loop exact_round [Fin 4, Fin 6, Fin 0] [Fin 1, Fin 2, Fin 3] (Fin 10))
      = Fin (8 / 5)"
    by (simp add: after_loop_def init_state_def exact_eval)
  have a: "\<not> halfspace_branch round_double [Fin 4, Fin 6, Fin 0] [Fin 1, Fin 2, Fin 3] (Fin 10)
      \<and> depth_weighted_average round_double [Fin 4, Fin 6, Fin 0] [Fin 1, Fin 2, Fin 3] (Fin 10)
          = Inr (round_double (8 / 5))"
    using halfspace_at_interface[OF l1, of round_double "[Fin 1, Fin 2, Fin 3]"] p1
    by (simp only: s1 m1) simp
  have b: "\<not> halfspace_branch round_double thin_layers unit_prop (Fin 1)
      \<and> depth_weighted_average round_double thin_layers unit_prop (Fin 1)
          = Inr (Fin (9007199254740991 / 2 ^ 53))"
    using halfspace_at_interface[OF l2, of round_double unit_prop] p2
    by (simp only: thin_sum thin_loop_1) simp
  have c: "\<not> halfspace_branch exact_round [Fin 4, Fin 6, Fin 0] [Fin 1, Fin 2, Fin 3] (Fin 10)
      \<and> depth_weighted_average exact_round [Fin 4, Fin 6, Fin 0] [Fin 1, Fin 2, Fin 3] (Fin 10)
          = Inr (Fin (8 / 5))"
    using halfspace_at_interface[OF l1, of exact_round "[Fin 1, Fin 2, Fin 3]"] p3
    by (simp only: s3 m3) simp
  show ?thesis
    using a b c l1 l2 p1 p2 p3 s1 s3 thin_sum thin_loop_1
    by (simp only: list_all_iff) simp
qed

text \<open>
  C3, as the specification states it: for thickness \<open>[10, 0]\<close>, velocity \<open>[200, 300]\<close>
  and quality \<open>[20, 30]\<close> with no depth argument, the result is \<open>10 / (300 * 30)\<close>, the
  half-space term alone. The code returns another number, in exact arithmetic and on
  float64.
\<close>

theorem kappa_example_counterexample:
  "compute_site_kappa exact_round [Fin 10, Fin 0] [Fin 200, Fin 300] [Fin 20, Fin 30] None
     \<noteq> Inr (Fin (10 / (300 * 30)))
   \<and> compute_site_kappa round_double [Fin 10, Fin 0] [Fin 200, Fin 300] [Fin 20, Fin 30] None
     \<noteq> Inr (round_double (10 / (300 * 30)))"
proof -
  have "compute_site_kappa exact_round [Fin 10, Fin 0] [Fin 200, Fin 300] [Fin 20, Fin 30] None
     \<noteq> Inr (Fin (10 / (300 * 30)))"
    by (simp add: compute_site_kappa_def np_array_mul_def dwa_unfold sum_eval exact_eval)
  moreover have
    "compute_site_kappa round_double [Fin 10, Fin 0] [Fin 200, Fin 300] [Fin 20, Fin 30] None
     \<noteq> Inr (round_double (10 / (300 * 30)))"
    by (simp add: compute_site_kappa_def np_array_mul_def dwa_unfold sum_eval float_eval)
  ultimately show ?thesis by simp
qed

text \<open>
  C3, amended. For thickness \<open>[10, 0]\<close>, velocity \<open>[200, 300]\<close> and quality \<open>[20, 30]\<close>
  with no depth argument, the default depth is \<open>sum [10, 0] = 10\<close> and the layer kappas
  are \<open>10 / (200 * 20)\<close> and \<open>10 / (300 * 30)\<close>. Layer 0 fails the strict test
  \<open>10 + 0 < 10\<close>, so it adds \<open>(10 - 0) * (10 / (200 * 20)) / 10\<close> and the loop breaks
  with \<open>total_depth = 0\<close>; the half-space branch is not taken, and the result is
  \<open>10 / (200 * 20) = 0.0025\<close>, the term of layer 0 alone. On float64 the steps are
  the same and the result is the float64 nearest to \<open>0.0025\<close>.
\<close>

theorem kappa_example:
  "np_sum exact_round [Fin 10, Fin 0] = Fin 10
   \<and> np_array_mul exact_round [Fin 200, Fin 300] [Fin 20, Fin 30]
       = Inr [Fin (200 * 20), Fin (300 * 30)]
   \<and> map (np_div exact_round (Fin 10)) [Fin (200 * 20), Fin (300 * 30)]
       = [Fin (10 / (200 * 20)), Fin (10 / (300 * 30))]
   \<and> after_loop exact_round [Fin 10, Fin 0] [Fin (10 / (200 * 20)), Fin (10 / (300 * 30))]
         (Fin 10)
       = \<lparr>mean_value = Fin (10 / (200 * 20)), total_depth = Fin 0, broke = True\<rparr>
   \<and> \<not> halfspace_branch exact_round [Fin 10, Fin 0]
         [Fin (10 / (200 * 20)), Fin (10 / (300 * 30))] (Fin 10)
   \<and> compute_site_kappa exact_round [Fin 10, Fin 0] [Fin 200, Fin 300] [Fin 20, Fin 30] None
       = Inr (Fin (10 / (200 * 20)))
   \<and> (10::real) / (200 * 20) = 25 / 10000
   \<and> np_sum round_double [Fin 10, Fin 0] = Fin 10
   \<and> map (np_div round_double (Fin 10)) [Fin (200 * 20), Fin (300 * 30)]
       = [round_double (10 / (200 * 20)), round_double (10 / (300 * 30))]
   \<and> after_loop round_double [Fin 10, Fin 0]
         [round_double (10 / (200 * 20)), round_double (10 / (300 * 30))] (Fin 10)
       = \<lparr>mean_value = round_double (10 / (200 * 20)), total_depth = Fin 0, broke = True\<rparr>
   \<and> \<not> halfspace_branch round_double [Fin 10, Fin 0]
         [round_double (10 / (200 * 20)), round_double (10 / (300 * 30))] (Fin 10)
   \<and> compute_site_kappa round_double [Fin 10, Fin 0] [Fin 200, Fin 300] [Fin 20, Fin 30] None
       = Inr (round_double (10 / (200 * 20)))"
proof -
  have ex: "np_sum exact_round [Fin 10, Fin 0] = Fin 10
   \<and> np_array_mul exact_round [Fin 200, Fin 300] [Fin 20, Fin 30]
       = Inr [Fin (200 * 20), Fin (300 * 30)]
   \<and> map (np_div exact_round (Fin 10)) [Fin (200 * 20), Fin (300 * 30)]
       = [Fin (10 / (200 * 20)), Fin (10 / (300 * 30))]
   \<and> after_loop exact_round [Fin 10, Fin 0] [Fin (10 / (200 * 20)), Fin (10 / (300 * 30))]
         (Fin 10)
       = \<lparr>mean_value = Fin (10 / (200 * 20)), total_depth = Fin 0, broke = True\<rparr>
   \<and> \<not> halfspace_branch exact_round [Fin 10, Fin 0]
         [Fin (10 / (200 * 20)), Fin (10 / (300 * 30))] (Fin 10)
   \<and> compute_site_kappa exact_round [Fin 10, Fin 0] [Fin 200, Fin 300] [Fin 20, Fin 30] None
       = Inr (Fin (10 / (200 * 20)))"
    by (simp add: compute_site_kappa_def np_array_mul_def dwa_unfold sum_eval exact_eval)
  have fl: "np_sum round_double [Fin 10, Fin 0] = Fin 10
   \<and> map (np_div round_double (Fin 10)) [Fin (200 * 20), Fin (300 * 30)]
       = [round_double (10 / (200 * 20)), round_double (10 / (300 * 30))]
   \<and> after_loop round_double [Fin 10, Fin 0]
         [round_double (10 / (200 * 20)), round_double (10 / (300 * 30))] (Fin 10)
       = \<lparr>mean_value = round_double (10 / (200 * 20)), total_depth = Fin 0, broke = True\<rparr>
   \<and> \<not> halfspace_branch round_double [Fin 10, Fin 0]
         [round_double (10 / (200 * 20)), round_double (10 / (300 * 30))] (Fin 10)
   \<and> compute_site_kappa round_double [Fin 10, Fin 0] [Fin 200, Fin 300] [Fin 20, Fin 30] None
       = Inr (round_double (10 / (200 * 20)))"
    by (simp add: compute_site_kappa_def np_array_mul_def dwa_unfold sum_eval float_eval)
  show ?thesis using ex fl by simp
qed

text \<open>
  C4. For thicknesses \<open>[5, 0]\<close>, properties \<open>[100, 200]\<close> and depth 10, layer 0 lies
  above the depth and adds \<open>5*100/10 = 50\<close>, the loop ends with \<open>total_depth = 5\<close>
  without a break, the test \<open>5 == sum [5]\<close> succeeds and the half-space adds
  \<open>(10-5)*200/10 = 100\<close>: the function returns 150, in exact arithmetic and on float64,
  where every step is exact.
\<close>

theorem dwa_two_layer_example:
  "after_loop exact_round [Fin 5, Fin 0] [Fin 100, Fin 200] (Fin 10)
     = \<lparr>mean_value = Fin 50, total_depth = Fin 5, broke = False\<rparr>
   \<and> halfspace_branch exact_round [Fin 5, Fin 0] [Fin 100, Fin 200] (Fin 10)
   \<and> np_div exact_round (np_mul exact_round (np_sub exact_round (Fin 10) (Fin 5)) (Fin 200))
         (Fin 10) = Fin 100
   \<and> depth_weighted_average exact_round [Fin 5, Fin 0] [Fin 100, Fin 200] (Fin 10)
       = Inr (Fin 150)
   \<and> after_loop round_double [Fin 5, Fin 0] [Fin 100, Fin 200] (Fin 10)
       = \<lparr>mean_value = Fin 50, total_depth = Fin 5, broke = False\<rparr>
   \<and> halfspace_branch round_double [Fin 5, Fin 0] [Fin 100, Fin 200] (Fin 10)
   \<and> np_div round_double (np_mul round_double (np_sub round_double (Fin 10) (Fin 5)) (Fin 200))
         (Fin 10) = Fin 100
   \<and> depth_weighted_average round_double [Fin 5, Fin 0] [Fin 100, Fin 200] (Fin 10)
       = Inr (Fin 150)"
proof -
  have ex: "after_loop exact_round [Fin 5, Fin 0] [Fin 100, Fin 200] (Fin 10)
     = \<lparr>mean_value = Fin 50, total_depth = Fin 5, broke = False\<rparr>
   \<and> halfspace_branch exact_round [Fin 5, Fin 0] [Fin 100, Fin 200] (Fin 10)
   \<and> np_div exact_round (np_mul exact_round (np_sub exact_round (Fin 10) (Fin 5)) (Fin 200))
         (Fin 10) = Fin 100
   \<and> depth_weighted_average exact_round [Fin 5, Fin 0] [Fin 100, Fin 200] (Fin 10)
       = Inr (Fin 150)"
    by (simp add: dwa_unfold sum_eval exact_eval)
  have fl: "after_loop round_double [Fin 5, Fin 0] [Fin 100, Fin 200] (Fin 10)
       = \<lparr>mean_value = Fin 50, total_depth = Fin 5, broke = False\<rparr>
   \<and> halfspace_branch round_double [Fin 5, Fin 0] [Fin 100, Fin 200] (Fin 10)
   \<and> np_div round_double (np_mul round_double (np_sub round_double (Fin 10) (Fin 5)) (Fin 200))
         (Fin 10) = Fin 100
   \<and> depth_weighted_average round_double [Fin 5, Fin 0] [Fin 100, Fin 200] (Fin 10)
       = Inr (Fin 150)"
    by (simp add: dwa_unfold sum_eval float_eval)
  show ?thesis using ex fl by simp
qed

text \<open>
  C5, as the specification states it: for arrays of a single element and every positive
  depth the function returns exactly the one soil property. On float64 it returns the
  rounded quotient of the rounded product \<open>depth * soil_prop\<close> by \<open>depth\<close>, which need
  not be the property: for the property 0.1 and depth 3 the product rounds to
  \<open>0.30000000000000004\<close> and the quotient to \<open>0.10000000000000002\<close>.
\<close>

theorem dwa_single_layer_counterexample:
  "round_double (1 / 10) = Fin tenth
   \<and> np_mul round_double (Fin 3) (Fin tenth) = Fin (1351079888211149 / 2 ^ 52)
   \<and> depth_weighted_average round_double [Fin 0] [Fin tenth] (Fin 3)
       = Inr (Fin (7205759403792795 / 2 ^ 56))
   \<and> tenth = 7205759403792794 / 2 ^ 56
   \<and> depth_weighted_average round_double [Fin 0] [Fin tenth] (Fin 3) \<noteq> Inr (Fin tenth)"
proof -
  have m: "np_mul round_double (Fin 3) (Fin tenth) = Fin (1351079888211149 / 2 ^ 52)"
    by (simp add: tenth_def float_eval)
  have d: "depth_weighted_average round_double [Fin 0] [Fin tenth] (Fin 3)
       = Inr (Fin (7205759403792795 / 2 ^ 56))"
    by (simp add: dwa_unfold sum_eval tenth_def float_eval)
  have t: "tenth = 7205759403792794 / 2 ^ 56" by (simp add: tenth_def)
  show ?thesis using m d t by (simp add: round_tenth)
qed

text \<open>
  C5, amended. For arrays of a single element the loop is empty, \<open>total_depth\<close> stays
  0, which is the empty sum, and the half-space branch returns
  \<open>0 + (depth - 0) * soil_prop[-1] / depth\<close> as the arithmetic evaluates it. In exact
  arithmetic that is exactly \<open>soil_prop[-1]\<close> for every positive depth; on float64
  it is that value up to the rounding of the product and of the quotient.
\<close>

theorem dwa_single_layer:
  "0 < d \<Longrightarrow>
     after_loop rnd [t] [sp] depth = init_state
   \<and> halfspace_branch rnd [t] [sp] depth
   \<and> depth_weighted_average rnd [t] [sp] depth
       = Inr (np_add rnd (Fin 0)
                (np_div rnd (np_mul rnd (np_sub rnd depth (Fin 0)) sp) depth))
   \<and> depth_weighted_average exact_round [t] [Fin p] (Fin d) = Inr (Fin p)"
proof -
  assume d: "0 < d"
  have a: "after_loop rnd [t] [sp] depth = init_state" for rnd sp depth
    by (simp add: after_loop_def)
  have b: "halfspace_branch rnd [t] [sp] depth" for rnd sp depth
    by (simp add: halfspace_branch_def a init_state_def np_sum_Nil np_eq_Fin)
  have c: "depth_weighted_average rnd [t] [sp] depth
       = Inr (np_add rnd (Fin 0)
                (np_div rnd (np_mul rnd (np_sub rnd depth (Fin 0)) sp) depth))" for rnd sp depth
    by (simp add: depth_weighted_average_def b a init_state_def)
  have d0: "d \<noteq> 0" using d by simp
  have "depth_weighted_average exact_round [t] [Fin p] (Fin d) = Inr (Fin p)"
    using d0 by (simp add: c ex_sub ex_term[OF d0])
  then show ?thesis using a b c by simp
qed

theorem dwa_single_layer_witness:
  "(0::real) < 30
   \<and> depth_weighted_average exact_round [Fin 0] [Fin 200] (Fin 30) = Inr (Fin 200)
   \<and> depth_weighted_average round_double [Fin 0] [Fin tenth] (Fin 3)
       = Inr (np_add round_double (Fin 0)
                (np_div round_double
                   (np_mul round_double (np_sub round_double (Fin 3) (Fin 0)) (Fin tenth))
                   (Fin 3)))"
proof -
  have h: "(0::real) < 30" by simp
  show ?thesis
    using dwa_single_layer[OF h, of round_double "Fin 0" "Fin tenth" "Fin 3" 200] by simp
qed

text \<open>
  C6. For velocities and quality factors of equal length with no zero entry and every
  supplied positive depth, \<open>compute_site_kappa\<close> is \<open>depth_weighted_average\<close> of the
  thicknesses and the specification's layer kappa,
  \<open>layer_kappa[i] = depth / (s_velocity[i] * s_quality[i])\<close>, at that depth. In any
  arithmetic it is \<open>depth_weighted_average\<close> of the list of those quotients as the
  arithmetic evaluates them.
\<close>

theorem kappa_is_average_of_layer_kappa:
  assumes "length v = length q" "\<forall>x\<in>set v. x \<noteq> 0" "\<forall>x\<in>set q. x \<noteq> 0" "0 < depth"
  shows "compute_site_kappa exact_round th (map Fin v) (map Fin q) (Some (Fin depth))
           = depth_weighted_average exact_round th (spec_layer_kappa depth v q) (Fin depth)
       \<and> compute_site_kappa rnd th (map Fin v) (map Fin q) (Some (Fin depth))
           = depth_weighted_average rnd th
               (map (\<lambda>i. np_div rnd (Fin depth) (np_mul rnd (Fin (v ! i)) (Fin (q ! i))))
                  [0..<length v])
               (Fin depth)"
proof -
  have tr: "np_truthy (Fin depth)" using assms(4) by (simp add: np_truthy_def)
  have gen: "map (np_div r (Fin depth)) (map2 (np_mul r) (map Fin v) (map Fin q))
      = map (\<lambda>i. np_div r (Fin depth) (np_mul r (Fin (v ! i)) (Fin (q ! i)))) [0..<length v]"
    for r
    using assms(1) by (intro nth_equalityI) simp_all
  have csk: "compute_site_kappa r th (map Fin v) (map Fin q) (Some (Fin depth))
      = depth_weighted_average r th
          (map (\<lambda>i. np_div r (Fin depth) (np_mul r (Fin (v ! i)) (Fin (q ! i)))) [0..<length v])
          (Fin depth)" for r
  proof -
    have "np_array_mul r (map Fin v) (map Fin q)
        = Inr (map2 (np_mul r) (map Fin v) (map Fin q))"
      using assms(1) by (simp add: np_array_mul_def)
    then have "compute_site_kappa r th (map Fin v) (map Fin q) (Some (Fin depth))
        = depth_weighted_average r th
            (map (np_div r (Fin depth)) (map2 (np_mul r) (map Fin v) (map Fin q))) (Fin depth)"
      using tr by (simp add: compute_site_kappa_def Let_def del: map_map)
    then show ?thesis by (simp only: gen)
  qed
  have "map (\<lambda>i. np_div exact_round (Fin depth) (np_mul exact_round (Fin (v ! i)) (Fin (q ! i))))
          [0..<length v]
      = spec_layer_kappa depth v q"
    unfolding spec_layer_kappa_def
  proof (rule map_cong[OF refl])
    fix i assume "i \<in> set [0..<length v]"
    then have i: "i < length v" "i < length q" using assms(1) by simp_all
    then have "v ! i \<noteq> 0" "q ! i \<noteq> 0" using assms(2,3) by (auto simp: all_set_conv_all_nth)
    then show "np_div exact_round (Fin depth) (np_mul exact_round (Fin (v ! i)) (Fin (q ! i)))
             = Fin (depth / (v ! i * q ! i))"
      using assms(4) by (simp add: exact_eval)
  qed
  then show ?thesis using csk[of exact_round] csk[of rnd] by simp
qed

theorem kappa_is_average_of_layer_kappa_witness:
  "length [200, 300::real] = length [20, 30::real]
   \<and> list_all (\<lambda>x. x \<noteq> 0) [200, 300::real]
   \<and> list_all (\<lambda>x. x \<noteq> 0) [20, 30::real]
   \<and> (0::real) < 12
   \<and> spec_layer_kappa 12 [200, 300] [20, 30] = [Fin (12 / (200 * 20)), Fin (12 / (300 * 30))]
   \<and> compute_site_kappa exact_round [Fin 10, Fin 0] [Fin 200, Fin 300] [Fin 20, Fin 30]
         (Some (Fin 12))
       = depth_weighted_average exact_round [Fin 10, Fin 0]
           [Fin (12 / (200 * 20)), Fin (12 / (300 * 30))] (Fin 12)
   \<and> compute_site_kappa round_double [Fin 10, Fin 0] [Fin 200, Fin 300] [Fin 20, Fin 30]
         (Some (Fin 12))
       = depth_weighted_average round_double [Fin 10, Fin 0]
           [np_div round_double (Fin 12) (np_mul round_double (Fin 200) (Fin 20)),
            np_div round_double (Fin 12) (np_mul round_double (Fin 300) (Fin 30))] (Fin 12)"
proof -
  have h1: "length [200, 300::real] = length [20, 30::real]" by simp
  have h2: "\<forall>x\<in>set [200, 300::real]. x \<noteq> 0" by simp
  have h3: "\<forall>x\<in>set [20, 30::real]. x \<noteq> 0" by simp
  have h4: "(0::real) < 12" by simp
  have lk: "spec_layer_kappa 12 [200, 300] [20, 30]
            = [Fin (12 / (200 * 20)), Fin (12 / (300 * 30))]"
    by (simp add: spec_layer_kappa_def upt_conv_Cons)
  have up: "[0..<length [200, 300::real]] = [0, 1]" by (simp add: upt_conv_Cons)
  show ?thesis
    using kappa_is_average_of_layer_kappa[OF h1 h2 h3 h4, of "[Fin 10, Fin 0]" round_double]
    by (simp only: lk up) simp
qed

text \<open>
  C7. Called with no depth argument, \<open>compute_site_kappa\<close> uses as depth the sum of
  all thicknesses, the last entry included: the result is that of the call with
  \<open>sum(thickness)\<close> supplied, and it is the average of \<open>sum(thickness) / (v * q)\<close> at
  depth \<open>sum(thickness)\<close>. This holds in any arithmetic.
\<close>

theorem kappa_default_depth:
  "compute_site_kappa rnd th v q None = compute_site_kappa rnd th v q (Some (np_sum rnd th))
   \<and> compute_site_kappa rnd th v q None =
       (case np_array_mul rnd v q of
          Inl e \<Rightarrow> Inl e
        | Inr vq \<Rightarrow>
            depth_weighted_average rnd th (map (np_div rnd (np_sum rnd th)) vq) (np_sum rnd th))"
  by (simp add: compute_site_kappa_def Let_def)

text \<open>
  C8. For thickness and soil\_prop of equal length at least 1,
  \<open>depth_weighted_average\<close> at a depth of zero (either zero of float64) raises
  nothing: on every path the value returned has gone through a division by the zero
  depth, so what the caller gets is an infinity or a NaN. This holds in any
  arithmetic.
\<close>

theorem dwa_depth_zero:
  assumes "length sp = length th" "th \<noteq> []" "is_zero depth"
  shows "returns_nonfinite (depth_weighted_average rnd th sp depth)"
proof -
  have spn: "sp \<noteq> []" using assms by auto
  show ?thesis
  proof (cases "halfspace_branch rnd th sp depth")
    case True
    then show ?thesis
      using assms(3)
      by (simp add: dwa_nonempty[OF spn] returns_nonfinite_def np_add_nonfinite_right
            np_div_zero_nonfinite)
  next
    case False
    have "zip (butlast th) (butlast sp) \<noteq> []"
    proof
      assume z: "zip (butlast th) (butlast sp) = []"
      have "length (butlast th) = length (butlast sp)" using assms(1) by simp
      then have "butlast th = []" using z by (cases "butlast th"; cases "butlast sp") simp_all
      then have "halfspace_branch rnd th sp depth"
        by (simp add: halfspace_branch_def after_loop_def init_state_def np_sum_Nil np_eq_Fin)
      then show False using False by simp
    qed
    then have "nonfinite (mean_value (after_loop rnd th sp depth))"
      unfolding after_loop_def by (rule loop_zero_depth[OF assms(3)])
    then show ?thesis
      by (simp add: dwa_no_branch[OF False] returns_nonfinite_def)
  qed
qed

theorem dwa_depth_zero_witness:
  "length [Fin 100, Fin 200] = length [Fin 5, Fin 0]
   \<and> [Fin 5, Fin 0] \<noteq> []
   \<and> is_zero (Fin 0) \<and> is_zero NegZero
   \<and> depth_weighted_average round_double [Fin 5, Fin 0] [Fin 100, Fin 200] (Fin 0) = Inr NaN
   \<and> depth_weighted_average round_double [Fin (- 5), Fin 0] [Fin (- 100), Fin 200] NegZero
       = Inr NInf
   \<and> returns_nonfinite
       (depth_weighted_average exact_round [Fin 5, Fin 0] [Fin 100, Fin 200] (Fin 0))"
proof -
  have h1: "length [Fin 100, Fin 200] = length [Fin 5, Fin 0]" by simp
  have h2: "[Fin 5, Fin 0] \<noteq> []" by simp
  have h3: "is_zero (Fin 0)" by simp
  have a: "depth_weighted_average round_double [Fin 5, Fin 0] [Fin 100, Fin 200] (Fin 0)
      = Inr NaN"
    by (simp add: dwa_unfold sum_eval float_eval)
  have b: "depth_weighted_average round_double [Fin (- 5), Fin 0] [Fin (- 100), Fin 200] NegZero
      = Inr NInf"
    by (simp add: dwa_unfold sum_eval float_eval)
  show ?thesis
    using dwa_depth_zero[OF h1 h2 h3, of exact_round] a b by simp
qed

text \<open>
  C9. A supplied depth of 0 behaves as no depth argument: the guard tests truthiness,
  the zero (either zero of float64) is replaced by \<open>sum(thickness)\<close>, and that sum is
  the numerator of the division \<open>depth / (s_velocity * s_quality)\<close>. This holds in any
  arithmetic.
\<close>

theorem kappa_zero_depth_is_default:
  "compute_site_kappa rnd th v q (Some (Fin 0)) = compute_site_kappa rnd th v q None
   \<and> compute_site_kappa rnd th v q (Some NegZero) = compute_site_kappa rnd th v q None
   \<and> compute_site_kappa rnd th v q (Some (Fin 0)) =
       (case np_array_mul rnd v q of
          Inl e \<Rightarrow> Inl e
        | Inr vq \<Rightarrow>
            depth_weighted_average rnd th (map (np_div rnd (np_sum rnd th)) vq) (np_sum rnd th))"
  by (simp add: compute_site_kappa_def Let_def np_truthy_def)

text \<open>
  C10. For thicknesses with non-negative entries, a soil\_prop of the same length and
  every positive depth, in exact arithmetic the test after the loop,
  \<open>total_depth == sum(thickness[:-1])\<close>, holds exactly when depth is strictly greater
  than \<open>sum(thickness[:-1])\<close>; and after a break \<open>total_depth\<close> is strictly less
  than \<open>sum(thickness[:-1])\<close>, so no half-space term follows a break.
\<close>

theorem halfspace_branch_iff:
  assumes "length sp = length th" "\<forall>t\<in>set th. 0 \<le> t" "0 < depth"
  shows "np_sum exact_round (butlast (map Fin th)) = Fin (sum_list (butlast th))
       \<and> (halfspace_branch exact_round (map Fin th) sp (Fin depth)
            \<longleftrightarrow> sum_list (butlast th) < depth)
       \<and> (broke (after_loop exact_round (map Fin th) sp (Fin depth)) \<longrightarrow>
            np_lt (total_depth (after_loop exact_round (map Fin th) sp (Fin depth)))
              (Fin (sum_list (butlast th)))
          \<and> \<not> halfspace_branch exact_round (map Fin th) sp (Fin depth)
          \<and> depth_weighted_average exact_round (map Fin th) sp (Fin depth)
              = Inr (mean_value (after_loop exact_round (map Fin th) sp (Fin depth))))"
proof -
  let ?ps = "zip (butlast th) (butlast sp)"
  let ?r = "dwa_loop exact_round (map (apfst Fin) ?ps) (Fin depth) init_state"
  have fsts: "map fst ?ps = butlast th" using assms(1) by simp
  have nonneg: "\<forall>p\<in>set ?ps. 0 \<le> fst p"
    using assms(2) by (auto dest!: set_zip_leftD in_set_butlastD)
  have al: "after_loop exact_round (map Fin th) sp (Fin depth) = ?r"
    by (simp add: after_loop_def map_butlast[symmetric] zip_map_Fin)
  have sm: "np_sum exact_round (butlast (map Fin th)) = Fin (sum_list (butlast th))"
    by (simp add: map_butlast[symmetric] ex_np_sum)
  have t0: "total_depth init_state = Fin 0" by (simp add: init_state_def)
  show ?thesis
  proof (cases "sum_list (butlast th) < depth")
    case True
    have "total_depth ?r = Fin (0 + sum_list (map fst ?ps)) \<and> broke ?r = broke init_state"
      using True fsts by (intro ex_loop_no_break[OF nonneg t0]) simp
    then have "total_depth ?r = Fin (sum_list (butlast th))" "\<not> broke ?r"
      using fsts by (simp_all add: init_state_def)
    then show ?thesis
      using True sm by (simp add: halfspace_branch_def al np_eq_Fin)
  next
    case False
    obtain z' where z': "total_depth ?r = Fin z'" "z' < 0 + sum_list (map fst ?ps)" "broke ?r"
      using ex_loop_break[OF nonneg t0 assms(3)] False fsts by auto
    then have lt: "z' < sum_list (butlast th)" using fsts by simp
    then have nb: "\<not> halfspace_branch exact_round (map Fin th) sp (Fin depth)"
      by (simp add: halfspace_branch_def al z'(1) sm np_eq_Fin)
    show ?thesis
      using False lt nb sm dwa_no_branch[OF nb] by (simp add: al z'(1) np_lt_Fin)
  qed
qed

theorem halfspace_branch_iff_witness:
  "length [Fin 100, Fin 200, Fin 300] = length [5, 10, 0::real]
   \<and> list_all (\<lambda>t. 0 \<le> t) [5, 10, 0::real]
   \<and> (0::real) < 12
   \<and> \<not> sum_list (butlast [5, 10, 0::real]) < 12
   \<and> \<not> halfspace_branch exact_round [Fin 5, Fin 10, Fin 0] [Fin 100, Fin 200, Fin 300] (Fin 12)
   \<and> broke (after_loop exact_round [Fin 5, Fin 10, Fin 0] [Fin 100, Fin 200, Fin 300] (Fin 12))
   \<and> total_depth (after_loop exact_round [Fin 5, Fin 10, Fin 0] [Fin 100, Fin 200, Fin 300]
        (Fin 12)) = Fin 5
   \<and> (0::real) < 16
   \<and> sum_list (butlast [5, 10, 0::real]) < 16
   \<and> halfspace_branch exact_round [Fin 5, Fin 10, Fin 0] [Fin 100, Fin 200, Fin 300] (Fin 16)
   \<and> \<not> broke (after_loop exact_round [Fin 5, Fin 10, Fin 0] [Fin 100, Fin 200, Fin 300]
        (Fin 16))"
proof -
  have h1: "length [Fin 100, Fin 200, Fin 300] = length [5, 10, 0::real]" by simp
  have h2: "\<forall>t\<in>set [5, 10, 0::real]. 0 \<le> t" by simp
  have h3: "(0::real) < 12" by simp
  have h4: "(0::real) < 16" by simp
  have s12: "after_loop exact_round [Fin 5, Fin 10, Fin 0] [Fin 100, Fin 200, Fin 300] (Fin 12)
      = \<lparr>mean_value = Fin (5 * 100 / 12 + (12 - 5) * 200 / 12), total_depth = Fin 5,
         broke = True\<rparr>"
    by (simp add: after_loop_def init_state_def exact_eval)
  have s16: "\<not> broke (after_loop exact_round [Fin 5, Fin 10, Fin 0]
      [Fin 100, Fin 200, Fin 300] (Fin 16))"
    by (simp add: after_loop_def init_state_def exact_eval)
  show ?thesis
    using halfspace_branch_iff[OF h1 h2 h3] halfspace_branch_iff[OF h1 h2 h4] s12 s16
    by simp
qed


end
